theory Spec2Isabelle
  imports Main "HOL-Library.Word" "HOL-Library.Sublist"
begin

section \<open>Data model of DCM130.py\<close>

text \<open>
  The enumeration \<^verbatim>\<open>_Request\<close> (lines 27-30) with the integer each member carries, and
  the enumeration \<^verbatim>\<open>_Registers\<close> (lines 33-36).
\<close>

datatype Request = CONTROL | REG_READ | REG_WRITE

fun Request_value :: "Request \<Rightarrow> int" where
  "Request_value CONTROL = 1"
| "Request_value REG_READ = 10"
| "Request_value REG_WRITE = 11"

datatype Registers = SIZE_X | SIZE_Y

fun Registers_value :: "Registers \<Rightarrow> int" where
  "Registers_value SIZE_X = 0x0022"
| "Registers_value SIZE_Y = 0x0023"

text \<open>
  Python does not enforce the annotation \<^verbatim>\<open>request: _Request\<close>: the first argument of
  \<^verbatim>\<open>request\<close> may be another object. Two shapes are kept, the members of the two
  enumerations of the file; a member of one never compares equal to a member of the other.
\<close>

datatype request_arg = Req Request | Reg Registers

text \<open>The exceptions that can leave \<^verbatim>\<open>request\<close> and \<^verbatim>\<open>main\<close>, with their arguments.\<close>

datatype exn =
    TypeError string
  | ValueError string
  | RuntimeError string
  | USBError int
  | SystemExit int

type_synonym byte = "8 word"

text \<open>
  The seven arguments of \<^verbatim>\<open>_controlTransfer\<close> (lines 68-76), in the order of the call.
\<close>

record ctl =
  bmRequestType :: int
  bRequest :: int
  wValue :: int
  wIndex :: int
  buf :: "byte list"
  wLength :: nat
  tmo :: int

text \<open>
  What the program does to the outside, in the order it does it: a record handed to the
  logger at debug level (lines 60, 64, 81; the arguments of the format string are kept, not
  the rendered text), a control transfer, a call of \<^verbatim>\<open>time.sleep\<close> (its argument in
  microseconds), a line printed on the standard output.
\<close>

datatype log_record =
    LogWrite int int "int list"
  | LogSend int int
  | LogRead int int "int list"

datatype event =
    Log log_record
  | Transfer ctl
  | Sleep nat
  | Print string

text \<open>
  The session: the state of the device behind the handle \<^verbatim>\<open>self._dev\<close> and the trace
  of events so far, oldest first.
\<close>

record 'd world =
  device :: 'd
  events :: "event list"

definition emit :: "event \<Rightarrow> 'd world \<Rightarrow> 'd world" where
  "emit e w = w\<lparr>events := events w @ [e]\<rparr>"

text \<open>
  The transport is the library call \<^verbatim>\<open>USBDeviceHandle._controlTransfer\<close>, a parameter of
  the model: from the state of the device and the arguments of the call it gives the new
  state and either the code of the \<^verbatim>\<open>USBError\<close> it raises or the bytes the device wrote
  into the buffer.
\<close>

type_synonym 'd transport = "'d \<Rightarrow> ctl \<Rightarrow> (int + byte list) \<times> 'd"

text \<open>
  The buffer is a ctypes array of fixed length: the bytes written replace its first
  elements, its length stays what it was.
\<close>

definition overlay :: "byte list \<Rightarrow> byte list \<Rightarrow> byte list" where
  "overlay buffer written = take (length buffer) written @ drop (length written) buffer"

section \<open>Rendering an integer in decimal\<close>

text \<open>The f-string \<^verbatim>\<open>{data[-1]}\<close> of line 86 is \<^verbatim>\<open>str\<close> of an integer.\<close>

definition digit_char :: "nat \<Rightarrow> char" where
  "digit_char d = char_of (48 + d)"

fun str_nat :: "nat \<Rightarrow> string" where
  "str_nat n = (if n < 10 then [digit_char n] else str_nat (n div 10) @ [digit_char (n mod 10)])"

declare str_nat.simps [simp del]

definition str_int :: "int \<Rightarrow> string" where
  "str_int i = (if i < 0 then CHR ''-'' # str_nat (nat (- i)) else str_nat (nat i))"

text \<open>Reading a decimal numeral back, to say that the rendering loses nothing.\<close>

definition digit_val :: "char \<Rightarrow> nat" where
  "digit_val c = of_char c - 48"

definition read_nat :: "string \<Rightarrow> nat" where
  "read_nat s = foldl (\<lambda>acc c. 10 * acc + digit_val c) 0 s"

section \<open>ScopetekDevice.request\<close>

text \<open>Lines 46-54: the request type and the size, or \<^verbatim>\<open>TypeError\<close>.\<close>

definition encode :: "request_arg \<Rightarrow> int option \<Rightarrow> exn + (int \<times> int)" where
  "encode req size_arg =
     (if req = Req CONTROL then Inr (0x40, 0)
      else if req = Req REG_READ \<or> req = Req REG_WRITE then
        Inr (0xc0, (case size_arg of None \<Rightarrow> 1 | Some s \<Rightarrow> s))
      else Inl (TypeError ''Unknown request''))"

text \<open>
  \<^verbatim>\<open>bytearray\<close> of a list of integers raises \<^verbatim>\<open>ValueError\<close> unless each is in
  \<^verbatim>\<open>range(256)\<close>; \<^verbatim>\<open>bytearray\<close> of an integer is that many zero bytes and raises
  \<^verbatim>\<open>ValueError\<close> on a negative count. Memory is taken to be unbounded.
\<close>

definition bytearray_of_list :: "int list \<Rightarrow> exn + byte list" where
  "bytearray_of_list xs =
     (if list_all (\<lambda>x. 0 \<le> x \<and> x < 256) xs then Inr (map word_of_int xs)
      else Inl (ValueError ''byte must be in range(0, 256)''))"

definition bytearray_of_count :: "int \<Rightarrow> exn + byte list" where
  "bytearray_of_count n =
     (if n < 0 then Inl (ValueError ''negative count'') else Inr (replicate (nat n) 0))"

text \<open>
  Line 57: \<^verbatim>\<open>bytearray(data if data else size)\<close>. \<^verbatim>\<open>None\<close> and the empty list are
  false, so both take the size.
\<close>

fun make_buffer :: "int list option \<Rightarrow> int \<Rightarrow> exn + byte list" where
  "make_buffer (Some (x # xs)) sz = bytearray_of_list (x # xs)"
| "make_buffer (Some []) sz = bytearray_of_count sz"
| "make_buffer None sz = bytearray_of_count sz"

text \<open>Lines 59-64: the record logged before the transfer.\<close>

fun log_before :: "int \<Rightarrow> int \<Rightarrow> int list option \<Rightarrow> log_record" where
  "log_before idx val (Some (x # xs)) = LogWrite idx val (x # xs)"
| "log_before idx val (Some []) = LogSend idx val"
| "log_before idx val None = LogSend idx val"

text \<open>\<^verbatim>\<open>request.value\<close> (line 70): the integer of an enumeration member.\<close>

fun attr_value :: "request_arg \<Rightarrow> int" where
  "attr_value (Req r) = Request_value r"
| "attr_value (Reg g) = Registers_value g"

text \<open>
  Lines 46-57 and 68-75: the arguments handed to \<^verbatim>\<open>_controlTransfer\<close>, or the exception
  raised before the call. \<^verbatim>\<open>create_initialised_buffer\<close> (line 67) gives a ctypes array
  of \<^verbatim>\<open>c_char\<close> over the same bytes, and \<^verbatim>\<open>ctypes.sizeof\<close> of it is its length.
\<close>

definition transfer_args ::
  "request_arg \<Rightarrow> int \<Rightarrow> int \<Rightarrow> int list option \<Rightarrow> int option \<Rightarrow> int \<Rightarrow> exn + ctl" where
  "transfer_args req idx val data size_arg timeout =
     (case encode req size_arg of
        Inl e \<Rightarrow> Inl e
      | Inr (request_type, sz) \<Rightarrow>
          (case make_buffer data sz of
             Inl e \<Rightarrow> Inl e
           | Inr buffer \<Rightarrow>
               Inr \<lparr>bmRequestType = request_type, bRequest = attr_value req, wValue = val,
                    wIndex = idx, buf = buffer, wLength = length buffer, tmo = timeout\<rparr>))"

text \<open>
  Lines 79-90, on the buffer after the transfer: the record logged and what the call
  returns or raises. \<^verbatim>\<open>int.from_bytes\<close> of one byte is its unsigned value; \<^verbatim>\<open>data[-1]\<close>
  is the last element, read only when the buffer is not empty.
\<close>

definition decode :: "int \<Rightarrow> int \<Rightarrow> byte list \<Rightarrow> event list \<times> (exn + int list option)" where
  "decode idx val buffer =
     (if buffer \<noteq> [] then
        (let data = map uint buffer in
           ([Log (LogRead idx val data)],
            if last data \<noteq> 0x08
            then Inl (RuntimeError (''Received error from the device: '' @ str_int (last data)))
            else Inr (Some data)))
      else ([], Inr None))"

text \<open>
  Lines 43-90. An exception leaves the world as it is when it is raised; the sleep of
  line 77 is reached only when the transfer did not raise.
\<close>

definition request ::
  "'d transport \<Rightarrow> 'd world \<Rightarrow> request_arg \<Rightarrow> int \<Rightarrow> int \<Rightarrow> int list option \<Rightarrow> int option \<Rightarrow> int
     \<Rightarrow> (exn + int list option) \<times> 'd world" where
  "request xfer w req idx val data size_arg timeout =
     (case transfer_args req idx val data size_arg timeout of
        Inl e \<Rightarrow> (Inl e, w)
      | Inr c \<Rightarrow>
          let w1 = emit (Log (log_before idx val data)) w;
              w2 = emit (Transfer c) w1;
              (res, dev') = xfer (device w2) c;
              w3 = w2\<lparr>device := dev'\<rparr>
          in (case res of
                Inl err \<Rightarrow> (Inl (USBError err), w3)
              | Inr written \<Rightarrow>
                  let w4 = emit (Sleep 2000) w3;
                      (logged, result) = decode idx val (overlay (buf c) written)
                  in (result, w4\<lparr>events := events w4 @ logged\<rparr>)))"

section \<open>The program\<close>

text \<open>
  \<^verbatim>\<open>_error\<close> (lines 14-24): the line printed and the \<^verbatim>\<open>SystemExit\<close> that \<^verbatim>\<open>exit\<close> raises.
  The escape character of \<^verbatim>\<open>'\33[91m'\<close> is octal 33, the byte 0x1B.
\<close>

definition error' :: "bool \<Rightarrow> string \<Rightarrow> int \<Rightarrow> event list \<times> exn" where
  "error' isatty msg code =
     (let prefix = (if isatty then (CHR 0x1B # ''[91m'') @ ''ERROR'' @ (CHR 0x1B # ''[0m'')
                    else ''ERROR'')
      in ([Print (prefix @ '' '' @ msg)], SystemExit code))"

text \<open>
  A call of \<^verbatim>\<open>dev.request\<close>: its arguments in the order of the signature. A sequence of
  calls stops at the first exception, which nothing in the file catches.
\<close>

type_synonym call = "request_arg \<times> int \<times> int \<times> int list option \<times> int option \<times> int"

fun run :: "'d transport \<Rightarrow> 'd world \<Rightarrow> call list \<Rightarrow> (exn + unit) \<times> 'd world" where
  "run xfer w [] = (Inr (), w)"
| "run xfer w ((req, idx, val, data, size_arg, timeout) # cs) =
     (case request xfer w req idx val data size_arg timeout of
        (Inl e, w') \<Rightarrow> (Inl e, w')
      | (Inr r, w') \<Rightarrow> run xfer w' cs)"

text \<open>Lines 102-110 and lines 114-145 of \<^verbatim>\<open>main\<close>, around the sleep of line 112.\<close>

definition ctrl :: "int \<Rightarrow> int \<Rightarrow> call" where
  "ctrl idx val = (Req CONTROL, idx, val, None, None, 0)"

definition rd3 :: "int \<Rightarrow> int \<Rightarrow> call" where
  "rd3 idx val = (Req REG_READ, idx, val, None, Some 3, 0)"

definition wr :: "int \<Rightarrow> int \<Rightarrow> call" where
  "wr idx val = (Req REG_WRITE, idx, val, None, None, 0)"

definition calls_before_sleep :: "call list" where
  "calls_before_sleep =
     [ctrl 0x000f 0x0001, ctrl 0x000f 0x0000, ctrl 0x000f 0x0001,
      rd3 0x0000 0x0000,
      wr 0x000a 0x8000, wr 0x000d 0x0001, wr 0x000d 0x0000]"

definition calls_after_sleep :: "call list" where
  "calls_after_sleep =
     [wr 0x0001 0x0015, wr 0x0002 0x0021,
      wr 0x0020 0x0000, wr 0x001e 0x8040, wr 0x004e 0x0030,
      wr 0x0004 0x07ff, wr 0x0003 0x05ff,
      wr 0x002b 0x0060, wr 0x002c 0x0060, wr 0x002d 0x0060, wr 0x002e 0x0060,
      wr 0x000a 0x8001,
      wr 0x0022 0x0033, wr 0x0023 0x0033,
      wr 0x0005 0x0150, wr 0x000a 0x8000, wr 0x0005 0x0300,
      rd3 0x0005 0x0000, rd3 0x0004 0x0000, rd3 0x0002 0x0000,
      wr 0x0009 0x012c, wr 0x0035 0x0056,
      ctrl 0x000f 0x0003]"

text \<open>
  The library call \<^verbatim>\<open>openByVendorIDAndProductID\<close> (line 95), by its contract: the bus is
  the list of attached devices, each with its vendor ID, its product ID and what opening
  it gives (the code of a \<^verbatim>\<open>USBError\<close>, or the state behind the handle); the call opens
  the first device with both IDs and returns \<^verbatim>\<open>None\<close> when there is none.
\<close>

type_synonym 'd bus = "(int \<times> int \<times> (int + 'd)) list"

fun openByVendorIDAndProductID :: "'d bus \<Rightarrow> int \<Rightarrow> int \<Rightarrow> exn + 'd option" where
  "openByVendorIDAndProductID [] vendor_id product_id = Inr None"
| "openByVendorIDAndProductID ((v, p, h) # rest) vendor_id product_id =
     (if v = vendor_id \<and> p = product_id
      then (case h of Inl err \<Rightarrow> Inl (USBError err) | Inr d \<Rightarrow> Inr (Some d))
      else openByVendorIDAndProductID rest vendor_id product_id)"

text \<open>
  \<^verbatim>\<open>main\<close> (lines 93-145): how it ends and the trace of the whole run. A handle is
  always true, so \<^verbatim>\<open>not usb_dev\<close> holds for \<^verbatim>\<open>None\<close> only.
\<close>

definition main :: "'d transport \<Rightarrow> bool \<Rightarrow> 'd bus \<Rightarrow> (exn + unit) \<times> event list" where
  "main xfer isatty bus =
     (case openByVendorIDAndProductID bus 0x0547 0x4d33 of
        Inl e \<Rightarrow> (Inl e, [])
      | Inr None \<Rightarrow>
          (let (out, e) = error' isatty ''Device not found (0x0547, 0x4d33)'' 1
           in (Inl e, out))
      | Inr (Some usb_dev) \<Rightarrow>
          (case run xfer \<lparr>device = usb_dev, events = []\<rparr> calls_before_sleep of
             (Inl e, w) \<Rightarrow> (Inl e, events w)
           | (Inr u, w) \<Rightarrow>
               (case run xfer (emit (Sleep 1000000) w) calls_after_sleep of
                  (r, w') \<Rightarrow> (r, events w'))))"

text \<open>
  The status the process ends with: 0 when \<^verbatim>\<open>main\<close> returns, the code of a
  \<^verbatim>\<open>SystemExit\<close>, 1 for any other exception, which reaches the top level.
\<close>

fun exit_status :: "exn + unit \<Rightarrow> int" where
  "exit_status (Inr u) = 0"
| "exit_status (Inl (SystemExit code)) = code"
| "exit_status (Inl e) = 1"

section \<open>Observing a trace\<close>

text \<open>The control transfers of a trace, in order.\<close>

fun transfers :: "event list \<Rightarrow> ctl list" where
  "transfers [] = []"
| "transfers (Transfer c # es) = c # transfers es"
| "transfers (e # es) = transfers es"

fun is_transfer :: "event \<Rightarrow> bool" where
  "is_transfer (Transfer c) = True"
| "is_transfer (Log r) = False"
| "is_transfer (Sleep d) = False"
| "is_transfer (Print l) = False"

text \<open>
  A trace keeps the settle delay when each transfer that is not its last event is
  followed at once by a sleep of 2000 microseconds.
\<close>

fun sleep_follows :: "event list \<Rightarrow> bool" where
  "sleep_follows [] = True"
| "sleep_follows (e # es) =
     ((case es of
         [] \<Rightarrow> True
       | e' # rest \<Rightarrow> (if is_transfer e then e' = Sleep 2000 else True))
      \<and> sleep_follows es)"

text \<open>A transfer is pending when it is the last event of the trace.\<close>

fun pending :: "event list \<Rightarrow> bool" where
  "pending [] = False"
| "pending (e # es) = (case es of [] \<Rightarrow> is_transfer e | e' # rest \<Rightarrow> pending es)"

text \<open>
  The time slept since the last transfer, in microseconds: a lower bound of the time
  elapsed since it, \<^verbatim>\<open>None\<close> before the first transfer.
\<close>

fun tick :: "nat option \<Rightarrow> event \<Rightarrow> nat option" where
  "tick t (Transfer c) = Some 0"
| "tick t (Sleep d) = map_option (\<lambda>s. s + d) t"
| "tick t (Log r) = t"
| "tick t (Print l) = t"

fun settled :: "nat option \<Rightarrow> bool" where
  "settled None = True"
| "settled (Some s) = (2000 \<le> s)"

text \<open>
  A trace is paced when each of its transfers starts at least 2000 microseconds of sleep
  after the one before.
\<close>

fun paced :: "nat option \<Rightarrow> event list \<Rightarrow> bool" where
  "paced t [] = True"
| "paced t (e # es) = ((if is_transfer e then settled t else True) \<and> paced (tick t e) es)"

text \<open>
  A caller of \<^verbatim>\<open>request\<close> that catches every exception and goes on with its next call:
  for each call in order, what it returned or raised and the events it added to the trace;
  and the world at the end.
\<close>

fun run_catching ::
  "'d transport \<Rightarrow> 'd world \<Rightarrow> call list \<Rightarrow> ((exn + int list option) \<times> event list) list \<times> 'd world" where
  "run_catching xfer w [] = ([], w)"
| "run_catching xfer w ((req, idx, val, data, size_arg, timeout) # cs) =
     (case request xfer w req idx val data size_arg timeout of
        (r, w') \<Rightarrow>
          (case run_catching xfer w' cs of
             (rs, w'') \<Rightarrow> ((r, drop (length (events w)) (events w')) # rs, w'')))"

fun raised_usb :: "exn + int list option \<Rightarrow> bool" where
  "raised_usb (Inl (USBError err)) = True"
| "raised_usb r = False"

text \<open>
  The events of one call, against how it ended: nothing when it raised before the
  transfer; a log record and a transfer with nothing after when the transfer raised; and
  otherwise a log record, a transfer, at once a sleep of 2000 microseconds, then no
  further transfer.
\<close>

fun settled_call :: "(exn + int list option) \<times> event list \<Rightarrow> bool" where
  "settled_call (r, []) = (\<not> raised_usb r)"
| "settled_call (r, [Log l, Transfer c]) = raised_usb r"
| "settled_call (r, Log l # Transfer c # Sleep d # rest) =
     (\<not> raised_usb r \<and> d = 2000 \<and> transfers rest = [])"
| "settled_call (r, new) = False"

text \<open>
  Transports to run the model on: a device that writes the same bytes at every
  transfer, one that fails every transfer with the same code, and one that fails its
  first transfer (with \<^verbatim>\<open>LIBUSB_ERROR_NO_DEVICE\<close>, -4) and then writes the same bytes at
  every transfer; its state says whether it has failed yet.
\<close>

definition answers :: "byte list \<Rightarrow> unit transport" where
  "answers bs d c = (Inr bs, d)"

definition fails :: "int \<Rightarrow> unit transport" where
  "fails err d c = (Inl err, d)"

definition fails_once :: "byte list \<Rightarrow> bool transport" where
  "fails_once bs failed c = (if failed then Inr bs else Inl (- 4), True)"

definition fresh :: "unit world" where
  "fresh = \<lparr>device = (), events = []\<rparr>"

section \<open>Auxiliary facts\<close>

lemma length_overlay: "length (overlay buffer written) = length buffer"
  by (simp add: overlay_def)

lemma digit_val_digit_char: "d < 10 \<Longrightarrow> digit_val (digit_char d) = d"
  by (simp add: digit_val_def digit_char_def)

lemma read_nat_snoc: "read_nat (s @ [c]) = 10 * read_nat s + digit_val c"
  by (simp add: read_nat_def)

lemma read_nat_str_nat: "read_nat (str_nat n) = n"
proof (induction n rule: str_nat.induct)
  case (1 n)
  show ?case
  proof (cases "n < 10")
    case True
    then show ?thesis
      by (subst str_nat.simps) (simp add: read_nat_def digit_val_digit_char)
  next
    case False
    with 1 have "read_nat (str_nat (n div 10)) = n div 10" by simp
    with False show ?thesis
      by (subst str_nat.simps) (simp add: read_nat_snoc digit_val_digit_char)
  qed
qed

lemma str_int_uint: "str_int (uint (b :: byte)) = str_nat (unat b)"
  by (simp add: str_int_def)

lemma request_raise:
  "transfer_args req idx val data size_arg timeout = Inl e \<Longrightarrow>
   request xfer w req idx val data size_arg timeout = (Inl e, w)"
  by (simp add: request_def)

lemma request_usb_error:
  "transfer_args req idx val data size_arg timeout = Inr c \<Longrightarrow>
   xfer (device w) c = (Inl err, d') \<Longrightarrow>
   request xfer w req idx val data size_arg timeout =
     (Inl (USBError err),
      \<lparr>device = d', events = events w @ [Log (log_before idx val data), Transfer c]\<rparr>)"
  by (simp add: request_def emit_def Let_def)

lemma request_completed:
  "transfer_args req idx val data size_arg timeout = Inr c \<Longrightarrow>
   xfer (device w) c = (Inr written, d') \<Longrightarrow>
   request xfer w req idx val data size_arg timeout =
     (snd (decode idx val (overlay (buf c) written)),
      \<lparr>device = d',
       events = events w @ [Log (log_before idx val data), Transfer c, Sleep 2000]
                  @ fst (decode idx val (overlay (buf c) written))\<rparr>)"
  by (simp add: request_def emit_def Let_def split: prod.splits)


lemma decode_cases:
  "decode idx val resp =
     (if resp = [] then ([], Inr None)
      else ([Log (LogRead idx val (map uint resp))],
            if last resp \<noteq> 0x08
            then Inl (RuntimeError (''Received error from the device: '' @ str_int (uint (last resp))))
            else Inr (Some (map uint resp))))"
  by (simp add: decode_def Let_def last_map word_uint_eq_iff)

lemma pending_append: "pending (xs @ ys) = (if ys = [] then pending xs else pending ys)"
proof (induction xs)
  case Nil
  then show ?case by simp
next
  case (Cons e xs)
  then show ?case by (cases xs; cases ys) simp_all
qed

lemma sleep_follows_append:
  "sleep_follows (xs @ ys) =
     (sleep_follows xs \<and> sleep_follows ys \<and> (pending xs \<longrightarrow> ys = [] \<or> hd ys = Sleep 2000))"
proof (induction xs)
  case Nil
  then show ?case by simp
next
  case (Cons e xs)
  then show ?case by (cases xs; cases ys) auto
qed

lemma settled_tick: "settled t \<Longrightarrow> \<not> is_transfer e \<Longrightarrow> settled (tick t e)"
  by (cases e; cases t) auto

lemma settled_after_sleep: "settled (tick t (Sleep 2000))"
  by (cases t) auto

lemma sleep_follows_paced_gen:
  "sleep_follows es \<Longrightarrow> settled t \<or> es = [] \<or> hd es = Sleep 2000 \<Longrightarrow> paced t es"
proof (induction es arbitrary: t)
  case Nil
  then show ?case by simp
next
  case (Cons e es)
  from Cons.prems(1) have r: "sleep_follows es" by simp
  show ?case
  proof (cases "is_transfer e")
    case True
    with Cons.prems(2) have t: "settled t" by auto
    from True Cons.prems(1) have "es = [] \<or> hd es = Sleep 2000"
      by (cases es) auto
    then have "paced (tick t e) es" using Cons.IH [OF r] by blast
    with True t show ?thesis by simp
  next
    case False
    have "settled (tick t e)"
    proof (cases "settled t")
      case True
      with False show ?thesis by (simp add: settled_tick)
    next
      case False
      with Cons.prems(2) have "e = Sleep 2000" by simp
      then show ?thesis by (simp only: settled_after_sleep)
    qed
    then have "paced (tick t e) es" using Cons.IH [OF r] by blast
    with False show ?thesis by simp
  qed
qed

lemma sleep_follows_paced: "sleep_follows es \<Longrightarrow> paced None es"
  by (rule sleep_follows_paced_gen) simp_all

lemma request_keeps_delay:
  assumes "sleep_follows (events w)" and "\<not> pending (events w)"
    and "request xfer w req idx val data size_arg timeout = (r, w')"
  shows "sleep_follows (events w') \<and> ((\<forall>err. r \<noteq> Inl (USBError err)) \<longrightarrow> \<not> pending (events w'))"
proof (cases "transfer_args req idx val data size_arg timeout")
  case (Inl e)
  with assms show ?thesis by (simp add: request_raise)
next
  case (Inr c)
  obtain res d' where x: "xfer (device w) c = (res, d')" by (cases "xfer (device w) c")
  show ?thesis
  proof (cases res)
    case (Inl err)
    with assms Inr x show ?thesis
      by (auto simp: request_usb_error sleep_follows_append)
  next
    case (Inr written)
    with \<open>transfer_args req idx val data size_arg timeout = Inr c\<close> x
    have q: "request xfer w req idx val data size_arg timeout =
       (snd (decode idx val (overlay (buf c) written)),
        \<lparr>device = d',
         events = events w @ [Log (log_before idx val data), Transfer c, Sleep 2000]
                    @ fst (decode idx val (overlay (buf c) written))\<rparr>)"
      by (simp add: request_completed)
    show ?thesis
    proof (cases "overlay (buf c) written = []")
      case True
      with assms q show ?thesis
        by (auto simp: decode_cases sleep_follows_append pending_append)
    next
      case False
      with assms q show ?thesis
        by (auto simp: decode_cases sleep_follows_append pending_append)
    qed
  qed
qed

lemma run_keeps_delay:
  "sleep_follows (events w) \<Longrightarrow> \<not> pending (events w) \<Longrightarrow> run xfer w cs = (r, w') \<Longrightarrow>
   sleep_follows (events w') \<and> ((\<forall>err. r \<noteq> Inl (USBError err)) \<longrightarrow> \<not> pending (events w'))"
proof (induction cs arbitrary: w)
  case Nil
  then show ?case by auto
next
  case (Cons c cs)
  obtain req idx val data size_arg timeout where c: "c = (req, idx, val, data, size_arg, timeout)"
    by (cases c)
  obtain r1 w1 where q: "request xfer w req idx val data size_arg timeout = (r1, w1)"
    by (cases "request xfer w req idx val data size_arg timeout")
  from request_keeps_delay [OF Cons.prems(1,2) q]
  have k: "sleep_follows (events w1)" "(\<forall>err. r1 \<noteq> Inl (USBError err)) \<longrightarrow> \<not> pending (events w1)"
    by auto
  show ?case
  proof (cases r1)
    case (Inl e)
    with Cons.prems(3) c q k show ?thesis by auto
  next
    case (Inr v)
    with Cons.prems(3) c q have "run xfer w1 cs = (r, w')" by simp
    moreover from Inr k have "\<not> pending (events w1)" by simp
    ultimately show ?thesis using Cons.IH k(1) by blast
  qed
qed


lemma transfer_args_Inr:
  "transfer_args req idx val data size_arg timeout = Inr c \<Longrightarrow>
   \<exists>request_type sz. encode req size_arg = Inr (request_type, sz)
      \<and> make_buffer data sz = Inr (buf c)
      \<and> c = \<lparr>bmRequestType = request_type, bRequest = attr_value req, wValue = val,
               wIndex = idx, buf = buf c, wLength = length (buf c), tmo = timeout\<rparr>"
  by (auto simp: transfer_args_def split: sum.splits)

lemma transfers_append: "transfers (xs @ ys) = transfers xs @ transfers ys"
  by (induction xs rule: transfers.induct) simp_all

lemma transfers_decode: "transfers (fst (decode idx val resp)) = []"
  by (simp add: decode_cases)

lemma request_transfers:
  "transfers (events (snd (request xfer w req idx val data size_arg timeout))) =
     transfers (events w) @
       (case transfer_args req idx val data size_arg timeout of Inl e \<Rightarrow> [] | Inr c \<Rightarrow> [c])"
proof (cases "transfer_args req idx val data size_arg timeout")
  case (Inl e)
  then show ?thesis by (simp add: request_raise)
next
  case (Inr c)
  obtain res d' where x: "xfer (device w) c = (res, d')" by (cases "xfer (device w) c")
  show ?thesis
  proof (cases res)
    case (Inl err)
    with Inr x show ?thesis by (simp add: request_usb_error transfers_append)
  next
    case r: (Inr written)
    with Inr x show ?thesis
      by (simp add: request_completed transfers_append transfers_decode)
  qed
qed

lemma overlay_Nil: "(overlay buffer written = []) = (buffer = [])"
  by (auto simp: overlay_def)

lemma decode_Some:
  "snd (decode idx val resp) = Inr (Some xs) \<Longrightarrow>
   xs = map uint resp \<and> resp \<noteq> [] \<and> last resp = 0x08"
  by (auto simp: decode_cases split: if_splits)

lemma uint_byte_range: "0 \<le> uint (b :: byte) \<and> uint b \<le> 255"
  using uint_bounded [of b] by simp

lemma uint_word_of_int_byte: "0 \<le> x \<Longrightarrow> x < 256 \<Longrightarrow> uint (word_of_int x :: byte) = x"
  by (simp add: uint_word_of_int take_bit_eq_mod)

lemma map_uint_word_of_int:
  "list_all (\<lambda>x. 0 \<le> x \<and> x < 256) xs \<Longrightarrow> map uint (map word_of_int xs :: byte list) = xs"
  by (induction xs) (simp_all add: uint_word_of_int_byte)

lemma bytearray_of_list_Inr:
  "bytearray_of_list xs = Inr bs \<Longrightarrow> map uint bs = xs"
  by (auto simp: bytearray_of_list_def map_uint_word_of_int simp del: map_map split: if_splits)

lemma bytearray_of_count_Inr:
  "bytearray_of_count n = Inr bs \<Longrightarrow> 0 \<le> n \<and> bs = replicate (nat n) 0"
  by (auto simp: bytearray_of_count_def split: if_splits)

lemma open_absent:
  "\<forall>h. (vendor_id, product_id, h) \<notin> set bus \<Longrightarrow>
   openByVendorIDAndProductID bus vendor_id product_id = Inr None"
  by (induction bus vendor_id product_id rule: openByVendorIDAndProductID.induct) auto

lemma main_absent:
  "\<forall>h. (0x0547, 0x4d33, h) \<notin> set bus \<Longrightarrow>
   main xfer isatty bus =
     (Inl (SystemExit 1),
      [Print ((if isatty then (CHR 0x1B # ''[91m'') @ ''ERROR'' @ (CHR 0x1B # ''[0m'') else ''ERROR'')
              @ '' Device not found (0x0547, 0x4d33)'')])"
  by (simp add: main_def open_absent error'_def)

lemma main_keeps_delay: "sleep_follows (snd (main xfer isatty bus))"
proof (cases "openByVendorIDAndProductID bus 0x0547 0x4d33")
  case (Inl e)
  then show ?thesis by (simp add: main_def)
next
  case (Inr opened)
  show ?thesis
  proof (cases opened)
    case None
    with Inr show ?thesis by (simp add: main_def error'_def)
  next
    case (Some usb_dev)
    let ?w0 = "\<lparr>device = usb_dev, events = []\<rparr>"
    obtain r1 w1 where a: "run xfer ?w0 calls_before_sleep = (r1, w1)"
      by (cases "run xfer ?w0 calls_before_sleep")
    have k1: "sleep_follows (events w1) \<and> ((\<forall>err. r1 \<noteq> Inl (USBError err)) \<longrightarrow> \<not> pending (events w1))"
      by (rule run_keeps_delay [OF _ _ a]) simp_all
    show ?thesis
    proof (cases r1)
      case (Inl e)
      with Inr Some a k1 show ?thesis by (simp add: main_def)
    next
      case r: (Inr u)
      let ?w1 = "emit (Sleep 1000000) w1"
      obtain r2 w2 where b: "run xfer ?w1 calls_after_sleep = (r2, w2)"
        by (cases "run xfer ?w1 calls_after_sleep")
      from r k1 have s: "sleep_follows (events ?w1)" and p: "\<not> pending (events ?w1)"
        by (simp_all add: emit_def sleep_follows_append pending_append)
      from run_keeps_delay [OF s p b] have "sleep_follows (events w2)" by simp
      with Inr Some a r b show ?thesis by (simp add: main_def)
    qed
  qed
qed

lemma raised_usb_iff: "raised_usb r = (\<exists>err. r = Inl (USBError err))"
  by (cases r rule: raised_usb.cases) simp_all

lemma settled_call_request:
  "request xfer w req idx val data size_arg timeout = (r, w') \<Longrightarrow>
   settled_call (r, drop (length (events w)) (events w'))
   \<and> events w' = events w @ drop (length (events w)) (events w')"
proof (cases "transfer_args req idx val data size_arg timeout")
  case (Inl e)
  assume q: "request xfer w req idx val data size_arg timeout = (r, w')"
  from Inl have "e = TypeError ''Unknown request'' \<or> (\<exists>m. e = ValueError m)"
    by (auto simp: transfer_args_def encode_def bytearray_of_list_def bytearray_of_count_def
        split: sum.splits if_splits prod.splits elim: make_buffer.elims)
  with Inl q show ?thesis by (auto simp: request_raise)
next
  case (Inr c)
  assume q: "request xfer w req idx val data size_arg timeout = (r, w')"
  obtain res d' where x: "xfer (device w) c = (res, d')" by (cases "xfer (device w) c")
  show ?thesis
  proof (cases res)
    case (Inl err)
    with Inr x q show ?thesis by (auto simp: request_usb_error)
  next
    case w: (Inr written)
    with x have x': "xfer (device w) c = (Inr written, d')" by simp
    from q have "(r, w') = request xfer w req idx val data size_arg timeout" by simp
    also note request_completed [where xfer = xfer and w = w, OF Inr x']
    finally have r: "r = snd (decode idx val (overlay (buf c) written))"
      and e: "events w' = events w @ [Log (log_before idx val data), Transfer c, Sleep 2000]
                  @ fst (decode idx val (overlay (buf c) written))"
      by simp_all
    have "\<not> raised_usb r"
      by (simp add: r decode_cases)
    with e show ?thesis by (simp add: transfers_decode)
  qed
qed

lemma run_catching_settled:
  "run_catching xfer w cs = (rs, w') \<Longrightarrow>
   list_all settled_call rs \<and> events w' = events w @ concat (map snd rs)"
proof (induction cs arbitrary: w rs w')
  case Nil
  then show ?case by simp
next
  case (Cons c cs)
  obtain req idx val data size_arg timeout where c: "c = (req, idx, val, data, size_arg, timeout)"
    by (cases c)
  obtain r1 w1 where q: "request xfer w req idx val data size_arg timeout = (r1, w1)"
    by (cases "request xfer w req idx val data size_arg timeout")
  obtain rs1 w2 where t: "run_catching xfer w1 cs = (rs1, w2)"
    by (cases "run_catching xfer w1 cs")
  from Cons.prems c q t have rs: "rs = (r1, drop (length (events w)) (events w1)) # rs1"
    and w': "w' = w2" by simp_all
  from settled_call_request [OF q]
  have s: "settled_call (r1, drop (length (events w)) (events w1))"
    and e: "events w1 = events w @ drop (length (events w)) (events w1)" by simp_all
  from Cons.IH [OF t] have i: "list_all settled_call rs1"
    and j: "events w2 = events w1 @ concat (map snd rs1)" by simp_all
  from j e have "events w2 = events w @ drop (length (events w)) (events w1) @ concat (map snd rs1)"
    by (metis append.assoc)
  with s i show ?case by (simp add: rs w')
qed

lemma run_catching_keeps_delay:
  "run_catching xfer w cs = (rs, w') \<Longrightarrow> sleep_follows (events w) \<Longrightarrow> \<not> pending (events w) \<Longrightarrow>
   list_all (\<lambda>rn. \<not> raised_usb (fst rn)) rs \<Longrightarrow>
   sleep_follows (events w') \<and> \<not> pending (events w')"
proof (induction cs arbitrary: w rs w')
  case Nil
  then show ?case by simp
next
  case (Cons c cs)
  obtain req idx val data size_arg timeout where c: "c = (req, idx, val, data, size_arg, timeout)"
    by (cases c)
  obtain r1 w1 where q: "request xfer w req idx val data size_arg timeout = (r1, w1)"
    by (cases "request xfer w req idx val data size_arg timeout")
  obtain rs1 w2 where t: "run_catching xfer w1 cs = (rs1, w2)"
    by (cases "run_catching xfer w1 cs")
  from Cons.prems(1) c q t have rs: "rs = (r1, drop (length (events w)) (events w1)) # rs1"
    and w': "w' = w2" by simp_all
  from Cons.prems(4) rs have n: "\<not> raised_usb r1" and l: "list_all (\<lambda>rn. \<not> raised_usb (fst rn)) rs1"
    by simp_all
  from request_keeps_delay [OF Cons.prems(2,3) q] n
  have "sleep_follows (events w1)" "\<not> pending (events w1)"
    by (simp_all add: raised_usb_iff)
  with Cons.IH [OF t _ _ l] show ?case by (simp add: w')
qed

section \<open>The claims\<close>

text \<open>
  C1. A call of \<^verbatim>\<open>request\<close> whose transfer completes and leaves a non-empty buffer whose
  last byte is not 0x08 raises \<^verbatim>\<open>RuntimeError\<close> (the device protocol error of the
  specification) and returns nothing. The message ends with the decimal rendering of
  that byte, from which the byte is read back unchanged. The buffer may have any
  length from 1 on.
\<close>

theorem status_mismatch_raises:
  assumes "transfer_args req idx val data size_arg timeout = Inr c"
    and "xfer (device w) c = (Inr written, d')"
    and "resp = overlay (buf c) written"
    and "resp \<noteq> []"
    and "last resp \<noteq> 0x08"
  shows "fst (request xfer w req idx val data size_arg timeout) =
           Inl (RuntimeError (''Received error from the device: '' @ str_int (uint (last resp))))
         \<and> read_nat (str_int (uint (last resp))) = unat (last resp)"
  using assms by (simp add: request_completed decode_cases str_int_uint read_nat_str_nat)

theorem status_mismatch_raises_witness:
  "transfer_args (Req REG_READ) 0 0 None (Some 3) 0 =
     Inr \<lparr>bmRequestType = 0xc0, bRequest = 10, wValue = 0, wIndex = 0,
          buf = [0, 0, 0], wLength = 3, tmo = 0\<rparr>
   \<and> overlay [0, 0, 0] [0x01, 0x02, 0x05] = [0x01, 0x02, 0x05 :: byte]
   \<and> last [0x01, 0x02, 0x05 :: byte] \<noteq> 0x08
   \<and> fst (request (answers [0x01, 0x02, 0x05]) fresh (Req REG_READ) 0 0 None (Some 3) 0) =
       Inl (RuntimeError ''Received error from the device: 5'')"
proof -
  let ?c = "\<lparr>bmRequestType = 0xc0, bRequest = 10, wValue = 0, wIndex = 0,
             buf = [0, 0, 0 :: byte], wLength = 3, tmo = 0\<rparr>"
  have a: "transfer_args (Req REG_READ) 0 0 None (Some 3) 0 = Inr ?c"
    by (simp add: transfer_args_def encode_def bytearray_of_count_def numeral_3_eq_3)
  have b: "answers [0x01, 0x02, 0x05] (device fresh) ?c = (Inr [0x01, 0x02, 0x05], ())"
    by (simp add: answers_def)
  have r: "[0x01, 0x02, 0x05 :: byte] = overlay (buf ?c) [0x01, 0x02, 0x05]"
    by (simp add: overlay_def)
  have n: "[0x01, 0x02, 0x05 :: byte] \<noteq> []" by simp
  have l: "last [0x01, 0x02, 0x05 :: byte] \<noteq> 0x08" by simp
  have s: "str_int (uint (5 :: byte)) = ''5''"
    by code_simp
  from status_mismatch_raises [where xfer = "answers [0x01, 0x02, 0x05]" and w = fresh, OF a b r n l]
    a r l s
  show ?thesis by simp
qed

text \<open>
  C2. As stated the claim fails for a payload that is given and not empty. Line 48 sets
  the local \<^verbatim>\<open>size\<close> to 0, but line 57 builds the buffer from the payload and line 74
  passes the length of that buffer: a \<^verbatim>\<open>CONTROL\<close> call with \<^verbatim>\<open>data=[0x33]\<close> and
  \<^verbatim>\<open>size=5\<close> hands the transport the byte 0x33 and the length 1, not 0.
\<close>

theorem control_payload_is_sent:
  "map wLength (transfers (events (snd
      (request (answers []) fresh (Req CONTROL) 0x000f 0x0001 (Some [0x33]) (Some 5) 0)))) = [1]
   \<and> map buf (transfers (events (snd
      (request (answers []) fresh (Req CONTROL) 0x000f 0x0001 (Some [0x33]) (Some 5) 0)))) = [[0x33]]
   \<and> map wLength (transfers (events (snd
      (request (answers []) fresh (Req CONTROL) 0x000f 0x0001 (Some [0x33]) (Some 5) 0)))) \<noteq> [0]"
  by (simp add: request_transfers transfer_args_def encode_def bytearray_of_list_def fresh_def)

text \<open>
  C2, amended. For \<^verbatim>\<open>CONTROL\<close>, whatever payload and size the caller gives, the request
  type of the transfer is 0x40 (host to device, vendor, device), its request code is 1 and
  the size computed at lines 46-48 is 0. The length of the transfer is 0 when no payload
  or an empty one is given; when a non-empty payload of bytes is given the buffer is that
  payload and the length of the transfer is the length of the payload. The transfer so
  described is the one \<^verbatim>\<open>request\<close> adds to the trace.
\<close>

theorem control_transfer:
  "encode (Req CONTROL) size_arg = Inr (0x40, 0)
   \<and> transfer_args (Req CONTROL) idx val None size_arg timeout =
       Inr \<lparr>bmRequestType = 0x40, bRequest = 1, wValue = val, wIndex = idx,
            buf = [], wLength = 0, tmo = timeout\<rparr>
   \<and> transfer_args (Req CONTROL) idx val (Some []) size_arg timeout =
       Inr \<lparr>bmRequestType = 0x40, bRequest = 1, wValue = val, wIndex = idx,
            buf = [], wLength = 0, tmo = timeout\<rparr>
   \<and> (list_all (\<lambda>b. 0 \<le> b \<and> b < 256) (x # xs) \<longrightarrow>
        transfer_args (Req CONTROL) idx val (Some (x # xs)) size_arg timeout =
          Inr \<lparr>bmRequestType = 0x40, bRequest = 1, wValue = val, wIndex = idx,
               buf = map word_of_int (x # xs), wLength = length (x # xs), tmo = timeout\<rparr>
        \<and> map uint (map word_of_int (x # xs) :: byte list) = x # xs)
   \<and> transfers (events (snd (request xfer w (Req CONTROL) idx val data size_arg timeout))) =
       transfers (events w) @
         (case transfer_args (Req CONTROL) idx val data size_arg timeout of
            Inl e \<Rightarrow> [] | Inr c \<Rightarrow> [c])"
proof (intro conjI impI)
  show "encode (Req CONTROL) size_arg = Inr (0x40, 0)"
    by (simp add: encode_def)
  show "transfer_args (Req CONTROL) idx val None size_arg timeout =
       Inr \<lparr>bmRequestType = 0x40, bRequest = 1, wValue = val, wIndex = idx,
            buf = [], wLength = 0, tmo = timeout\<rparr>"
    by (simp add: transfer_args_def encode_def bytearray_of_count_def)
  show "transfer_args (Req CONTROL) idx val (Some []) size_arg timeout =
       Inr \<lparr>bmRequestType = 0x40, bRequest = 1, wValue = val, wIndex = idx,
            buf = [], wLength = 0, tmo = timeout\<rparr>"
    by (simp add: transfer_args_def encode_def bytearray_of_count_def)
  show "transfers (events (snd (request xfer w (Req CONTROL) idx val data size_arg timeout))) =
       transfers (events w) @
         (case transfer_args (Req CONTROL) idx val data size_arg timeout of
            Inl e \<Rightarrow> [] | Inr c \<Rightarrow> [c])"
    by (rule request_transfers)
next
  assume a: "list_all (\<lambda>b. 0 \<le> b \<and> b < 256) (x # xs)"
  then show "transfer_args (Req CONTROL) idx val (Some (x # xs)) size_arg timeout =
          Inr \<lparr>bmRequestType = 0x40, bRequest = 1, wValue = val, wIndex = idx,
               buf = map word_of_int (x # xs), wLength = length (x # xs), tmo = timeout\<rparr>"
    by (simp add: transfer_args_def encode_def bytearray_of_list_def)
  from a show "map uint (map word_of_int (x # xs) :: byte list) = x # xs"
    by (rule map_uint_word_of_int)
qed

theorem control_transfer_witness:
  "list_all (\<lambda>b. 0 \<le> b \<and> b < 256) [0x33 :: int]
   \<and> transfer_args (Req CONTROL) 0x000f 0x0001 (Some [0x33]) (Some 5) 0 =
       Inr \<lparr>bmRequestType = 0x40, bRequest = 1, wValue = 0x0001, wIndex = 0x000f,
            buf = [0x33], wLength = 1, tmo = 0\<rparr>
   \<and> transfer_args (Req CONTROL) 0x000f 0x0001 None (Some 5) 0 =
       Inr \<lparr>bmRequestType = 0x40, bRequest = 1, wValue = 0x0001, wIndex = 0x000f,
            buf = [], wLength = 0, tmo = 0\<rparr>"
proof -
  have a: "list_all (\<lambda>b. 0 \<le> b \<and> b < 256) [0x33 :: int]" by simp
  note t = control_transfer [where size_arg = "Some 5" and idx = "0x000f" and val = "0x0001"
      and timeout = 0 and x = "0x33" and xs = "[]"]
  have n: "transfer_args (Req CONTROL) 0x000f 0x0001 None (Some 5) 0 =
       Inr \<lparr>bmRequestType = 0x40, bRequest = 1, wValue = 0x0001, wIndex = 0x000f,
            buf = [], wLength = 0, tmo = 0\<rparr>"
    by (rule t [THEN conjunct2, THEN conjunct1])
  have "transfer_args (Req CONTROL) 0x000f 0x0001 (Some [0x33]) (Some 5) 0 =
       Inr \<lparr>bmRequestType = 0x40, bRequest = 1, wValue = 0x0001, wIndex = 0x000f,
            buf = map word_of_int [0x33], wLength = length [0x33 :: int], tmo = 0\<rparr>"
    by (rule t [THEN conjunct2, THEN conjunct2, THEN conjunct2, THEN conjunct1, THEN mp,
          OF a, THEN conjunct1])
  with a n show ?thesis by simp
qed



text \<open>
  C4. A first argument that is none of the three members of \<^verbatim>\<open>_Request\<close> makes
  \<^verbatim>\<open>request\<close> raise \<^verbatim>\<open>TypeError('Unknown request')\<close>, the unsupported-request error of
  the specification, and leaves the world (the device and the trace) as it was: no
  transfer is made.
\<close>

theorem unknown_request_raises:
  assumes "req \<noteq> Req CONTROL" and "req \<noteq> Req REG_READ" and "req \<noteq> Req REG_WRITE"
  shows "request xfer w req idx val data size_arg timeout = (Inl (TypeError ''Unknown request''), w)
         \<and> transfers (events (snd (request xfer w req idx val data size_arg timeout))) =
             transfers (events w)"
proof -
  from assms have "transfer_args req idx val data size_arg timeout = Inl (TypeError ''Unknown request'')"
    by (simp add: transfer_args_def encode_def)
  then show ?thesis by (simp add: request_raise)
qed

theorem unknown_request_raises_witness:
  "request (answers [0x08]) fresh (Reg SIZE_X) 0x0022 0x0033 None None 0 =
     (Inl (TypeError ''Unknown request''), fresh)"
proof -
  have "Reg SIZE_X \<noteq> Req CONTROL" "Reg SIZE_X \<noteq> Req REG_READ" "Reg SIZE_X \<noteq> Req REG_WRITE"
    by simp_all
  from unknown_request_raises [OF this, where xfer = "answers [0x08]" and w = fresh
      and idx = "0x0022" and val = "0x0033" and data = None and size_arg = None and timeout = 0]
  show ?thesis by (rule conjunct1)
qed

text \<open>
  C5. When the transfer completes and the buffer is empty, \<^verbatim>\<open>request\<close> returns
  \<^verbatim>\<open>None\<close>: not an exception, and not the empty list.
\<close>

theorem empty_buffer_returns_None:
  assumes "transfer_args req idx val data size_arg timeout = Inr c"
    and "xfer (device w) c = (Inr written, d')"
    and "overlay (buf c) written = []"
  shows "fst (request xfer w req idx val data size_arg timeout) = Inr None
         \<and> fst (request xfer w req idx val data size_arg timeout) \<noteq> Inr (Some [])"
  using assms by (simp add: request_completed decode_cases)

theorem empty_buffer_returns_None_witness:
  "transfer_args (Req CONTROL) 0x000f 0x0001 None None 0 =
     Inr \<lparr>bmRequestType = 0x40, bRequest = 1, wValue = 0x0001, wIndex = 0x000f,
          buf = [], wLength = 0, tmo = 0\<rparr>
   \<and> overlay [] [0x08 :: byte] = []
   \<and> fst (request (answers [0x08]) fresh (Req CONTROL) 0x000f 0x0001 None None 0) = Inr None"
proof -
  let ?c = "\<lparr>bmRequestType = 0x40, bRequest = 1, wValue = 0x0001, wIndex = 0x000f,
             buf = [] :: byte list, wLength = 0, tmo = 0\<rparr>"
  have a: "transfer_args (Req CONTROL) 0x000f 0x0001 None None 0 = Inr ?c"
    by (simp add: transfer_args_def encode_def bytearray_of_count_def)
  have b: "answers [0x08] (device fresh) ?c = (Inr [0x08], ())"
    by (simp add: answers_def)
  have r: "overlay (buf ?c) [0x08] = []"
    by (simp add: overlay_def)
  from empty_buffer_returns_None [where xfer = "answers [0x08]" and w = fresh, OF a b r] a r
  show ?thesis by simp
qed

text \<open>
  C7. When the transfer completes and leaves a non-empty buffer ending in 0x08,
  \<^verbatim>\<open>request\<close> returns every byte of the buffer as an integer, the status byte
  included. A \<^verbatim>\<open>REG_READ\<close> at index 0, value 0, size 3 whose transfer leaves
  \<^verbatim>\<open>[0x01, 0x02, 0x08]\<close> returns \<^verbatim>\<open>[1, 2, 8]\<close>.
\<close>

theorem success_returns_all_bytes:
  "(transfer_args req idx val data size_arg timeout = Inr c
      \<and> xfer (device w) c = (Inr written, d')
      \<and> resp = overlay (buf c) written \<and> resp \<noteq> [] \<and> last resp = 0x08
    \<longrightarrow> fst (request xfer w req idx val data size_arg timeout) = Inr (Some (map uint resp))
        \<and> length (map uint resp) = length (buf c) \<and> last (map uint resp) = 0x08)
   \<and> (xfer' (device w')
         \<lparr>bmRequestType = 0xc0, bRequest = 10, wValue = 0x0000, wIndex = 0x0000,
          buf = [0, 0, 0], wLength = 3, tmo = 0\<rparr> = (Inr [0x01, 0x02, 0x08], d'')
    \<longrightarrow> fst (request xfer' w' (Req REG_READ) 0x0000 0x0000 None (Some 3) 0) = Inr (Some [1, 2, 8]))"
proof (intro conjI impI)
  assume h: "transfer_args req idx val data size_arg timeout = Inr c
      \<and> xfer (device w) c = (Inr written, d')
      \<and> resp = overlay (buf c) written \<and> resp \<noteq> [] \<and> last resp = 0x08"
  then have a: "transfer_args req idx val data size_arg timeout = Inr c"
    and x: "xfer (device w) c = (Inr written, d')"
    and r: "resp = overlay (buf c) written" and n: "resp \<noteq> []" and l: "last resp = 0x08"
    by blast+
  have "fst (request xfer w req idx val data size_arg timeout) =
          snd (decode idx val (overlay (buf c) written))"
    by (simp only: request_completed [where xfer = xfer and w = w, OF a x] fst_conv)
  also have "\<dots> = Inr (Some (map uint resp))"
    using n l by (simp add: decode_cases r [symmetric])
  finally show "fst (request xfer w req idx val data size_arg timeout) = Inr (Some (map uint resp))" .
  from r show "length (map uint resp) = length (buf c)"
    by (simp add: length_overlay)
  from n l show "last (map uint resp) = 0x08"
    by (simp add: last_map)
next
  let ?c = "\<lparr>bmRequestType = 0xc0, bRequest = 10, wValue = 0x0000, wIndex = 0x0000,
             buf = [0, 0, 0 :: byte], wLength = 3, tmo = 0\<rparr>"
  assume x: "xfer' (device w') ?c = (Inr [0x01, 0x02, 0x08], d'')"
  have a: "transfer_args (Req REG_READ) 0x0000 0x0000 None (Some 3) 0 = Inr ?c"
    by (simp add: transfer_args_def encode_def bytearray_of_count_def numeral_3_eq_3)
  have r: "overlay (buf ?c) [0x01, 0x02, 0x08] = [0x01, 0x02, 0x08]"
    by (simp add: overlay_def)
  have "fst (request xfer' w' (Req REG_READ) 0x0000 0x0000 None (Some 3) 0) =
          snd (decode 0x0000 0x0000 (overlay (buf ?c) [0x01, 0x02, 0x08]))"
    by (simp only: request_completed [where xfer = xfer' and w = w', OF a x] fst_conv)
  also have "\<dots> = Inr (Some [1, 2, 8])"
    by (simp only: r) (simp add: decode_cases)
  finally show "fst (request xfer' w' (Req REG_READ) 0x0000 0x0000 None (Some 3) 0) =
          Inr (Some [1, 2, 8])" .
qed

theorem success_returns_all_bytes_witness:
  "fst (request (answers [0x01, 0x02, 0x08]) fresh (Req REG_READ) 0x0000 0x0000 None (Some 3) 0) =
     Inr (Some [1, 2, 8])"
proof -
  let ?c = "\<lparr>bmRequestType = 0xc0, bRequest = 10, wValue = 0x0000, wIndex = 0x0000,
             buf = [0, 0, 0 :: byte], wLength = 3, tmo = 0\<rparr>"
  have b: "answers [0x01, 0x02, 0x08] (device fresh) ?c = (Inr [0x01, 0x02, 0x08], ())"
    by (simp add: answers_def)
  show ?thesis
    by (rule mp [OF success_returns_all_bytes [where xfer' = "answers [0x01, 0x02, 0x08]"
          and w' = fresh and d'' = "()", THEN conjunct2] b])
qed

text \<open>
  C10. A list returned by \<^verbatim>\<open>request\<close> is not empty, each of its elements is between
  0 and 255, and its last element is 0x08.
\<close>

theorem returned_sequence_shape:
  assumes "fst (request xfer w req idx val data size_arg timeout) = Inr (Some xs)"
  shows "xs \<noteq> [] \<and> list_all (\<lambda>x. 0 \<le> x \<and> x \<le> 255) xs \<and> last xs = 0x08"
proof (cases "transfer_args req idx val data size_arg timeout")
  case (Inl e)
  with assms show ?thesis by (simp add: request_raise)
next
  case (Inr c)
  obtain res d' where x: "xfer (device w) c = (res, d')" by (cases "xfer (device w) c")
  show ?thesis
  proof (cases res)
    case (Inl err)
    with Inr x assms show ?thesis by (simp add: request_usb_error)
  next
    case r: (Inr written)
    with Inr x assms have "snd (decode idx val (overlay (buf c) written)) = Inr (Some xs)"
      by (simp add: request_completed)
    then have d: "xs = map uint (overlay (buf c) written)" "overlay (buf c) written \<noteq> []"
      "last (overlay (buf c) written) = 0x08"
      by (auto dest: decode_Some)
    from d show ?thesis
      by (simp add: last_map list_all_iff uint_byte_range)
  qed
qed

theorem returned_sequence_shape_witness:
  "fst (request (answers [0x01, 0x02, 0x08]) fresh (Req REG_READ) 0 0 None (Some 3) 0) =
     Inr (Some [1, 2, 8])
   \<and> list_all (\<lambda>x. 0 \<le> x \<and> x \<le> 255) [1, 2, 8 :: int] \<and> last [1, 2, 8 :: int] = 0x08"
proof -
  let ?c = "\<lparr>bmRequestType = 0xc0, bRequest = 10, wValue = 0, wIndex = 0,
             buf = [0, 0, 0 :: byte], wLength = 3, tmo = 0\<rparr>"
  have a: "transfer_args (Req REG_READ) 0 0 None (Some 3) 0 = Inr ?c"
    by (simp add: transfer_args_def encode_def bytearray_of_count_def numeral_3_eq_3)
  have b: "answers [0x01, 0x02, 0x08] (device fresh) ?c = (Inr [0x01, 0x02, 0x08], ())"
    by (simp add: answers_def)
  have q: "fst (request (answers [0x01, 0x02, 0x08]) fresh (Req REG_READ) 0 0 None (Some 3) 0) =
     Inr (Some [1, 2, 8])"
    by (simp add: request_completed [where xfer = "answers [0x01, 0x02, 0x08]" and w = fresh, OF a b]
        decode_cases overlay_def)
  from returned_sequence_shape [OF q] q show ?thesis by simp
qed

text \<open>
  C6. As stated the claim fails for a payload that is given and empty: line 57 takes an
  empty list for false, so a \<^verbatim>\<open>REG_WRITE\<close> with \<^verbatim>\<open>data=[]\<close> and no size sends a buffer
  of one zero byte, not the empty payload.
\<close>

theorem empty_payload_not_sent:
  "map buf (transfers (events (snd
      (request (answers [0x08]) fresh (Req REG_WRITE) 0x0022 0x0033 (Some []) None 0)))) = [[0]]
   \<and> [0 :: byte] \<noteq> map word_of_int []"
  by (simp add: request_transfers transfer_args_def encode_def bytearray_of_count_def fresh_def)

text \<open>
  C6, amended. In every call that reaches the transport, the buffer handed over holds
  the payload when a non-empty one is given, and otherwise (no payload, or an empty one)
  as many zero bytes as the computed size; the length handed over is the length of that
  buffer; and this is the one transfer the call adds to the trace.
\<close>

theorem outgoing_buffer:
  assumes "transfer_args req idx val data size_arg timeout = Inr c"
  shows "(case data of
            None \<Rightarrow> (\<exists>request_type sz. encode req size_arg = Inr (request_type, sz)
                        \<and> 0 \<le> sz \<and> buf c = replicate (nat sz) 0)
          | Some [] \<Rightarrow> (\<exists>request_type sz. encode req size_arg = Inr (request_type, sz)
                        \<and> 0 \<le> sz \<and> buf c = replicate (nat sz) 0)
          | Some (x # xs) \<Rightarrow> map uint (buf c) = x # xs)
         \<and> wLength c = length (buf c)
         \<and> transfers (events (snd (request xfer w req idx val data size_arg timeout))) =
             transfers (events w) @ [c]"
proof -
  from transfer_args_Inr [OF assms] obtain request_type sz where
    e: "encode req size_arg = Inr (request_type, sz)" and m: "make_buffer data sz = Inr (buf c)"
    and c: "c = \<lparr>bmRequestType = request_type, bRequest = attr_value req, wValue = val,
               wIndex = idx, buf = buf c, wLength = length (buf c), tmo = timeout\<rparr>"
    by blast
  have l: "wLength c = length (buf c)"
    by (subst c) simp
  have t: "transfers (events (snd (request xfer w req idx val data size_arg timeout))) =
             transfers (events w) @ [c]"
    by (simp add: request_transfers assms)
  have b: "(case data of
            None \<Rightarrow> (\<exists>request_type sz. encode req size_arg = Inr (request_type, sz)
                        \<and> 0 \<le> sz \<and> buf c = replicate (nat sz) 0)
          | Some [] \<Rightarrow> (\<exists>request_type sz. encode req size_arg = Inr (request_type, sz)
                        \<and> 0 \<le> sz \<and> buf c = replicate (nat sz) 0)
          | Some (x # xs) \<Rightarrow> map uint (buf c) = x # xs)"
  proof (cases data)
    case None
    with m e show ?thesis by (auto dest: bytearray_of_count_Inr)
  next
    case (Some ys)
    show ?thesis
    proof (cases ys)
      case Nil
      with Some m e show ?thesis by (auto dest: bytearray_of_count_Inr)
    next
      case (Cons x xs)
      with Some m show ?thesis by (auto dest: bytearray_of_list_Inr)
    qed
  qed
  from b l t show ?thesis by blast
qed

theorem outgoing_buffer_witness:
  "transfer_args (Req REG_WRITE) 0x0022 0x0033 (Some [0x33]) None 0 =
     Inr \<lparr>bmRequestType = 0xc0, bRequest = 11, wValue = 0x0033, wIndex = 0x0022,
          buf = [0x33], wLength = 1, tmo = 0\<rparr>
   \<and> transfers (events (snd
        (request (answers [0x08]) fresh (Req REG_WRITE) 0x0022 0x0033 (Some [0x33]) None 0))) =
       [\<lparr>bmRequestType = 0xc0, bRequest = 11, wValue = 0x0033, wIndex = 0x0022,
          buf = [0x33], wLength = 1, tmo = 0\<rparr>]"
proof -
  let ?c = "\<lparr>bmRequestType = 0xc0, bRequest = 11, wValue = 0x0033, wIndex = 0x0022,
             buf = [0x33 :: byte], wLength = 1, tmo = 0\<rparr>"
  have a: "transfer_args (Req REG_WRITE) 0x0022 0x0033 (Some [0x33]) None 0 = Inr ?c"
    by (simp add: transfer_args_def encode_def bytearray_of_list_def)
  from outgoing_buffer [OF a, where xfer = "answers [0x08]" and w = fresh] a
  show ?thesis by (simp add: fresh_def)
qed

text \<open>
  C9. When no attached device has vendor ID 0x0547 and product ID 0x4d33, \<^verbatim>\<open>main\<close>
  prints one line, which holds both IDs, ends by \<^verbatim>\<open>SystemExit(1)\<close>, so with a status
  that is not 0, and makes no transfer.
\<close>

theorem device_not_found_exits:
  assumes "\<forall>h. (0x0547, 0x4d33, h) \<notin> set bus"
  shows "(\<exists>line. snd (main xfer isatty bus) = [Print line]
            \<and> sublist ''0x0547'' line \<and> sublist ''0x4d33'' line
            \<and> line = (if isatty then (CHR 0x1B # ''[91m'') @ ''ERROR'' @ (CHR 0x1B # ''[0m'')
                       else ''ERROR'') @ '' Device not found (0x0547, 0x4d33)'')
         \<and> fst (main xfer isatty bus) = Inl (SystemExit 1)
         \<and> exit_status (fst (main xfer isatty bus)) \<noteq> 0
         \<and> transfers (snd (main xfer isatty bus)) = []"
proof -
  let ?prefix = "if isatty then (CHR 0x1B # ''[91m'') @ ''ERROR'' @ (CHR 0x1B # ''[0m'') else ''ERROR''"
  let ?line = "?prefix @ '' Device not found (0x0547, 0x4d33)''"
  have m: "main xfer isatty bus = (Inl (SystemExit 1), [Print ?line])"
    using assms by (rule main_absent)
  have "?line = (?prefix @ '' Device not found ('') @ ''0x0547'' @ '', 0x4d33)''"
    by simp
  then have v: "sublist ''0x0547'' ?line"
    unfolding sublist_def by blast
  have "?line = (?prefix @ '' Device not found (0x0547, '') @ ''0x4d33'' @ '')''"
    by simp
  then have p: "sublist ''0x4d33'' ?line"
    unfolding sublist_def by blast
  from v p show ?thesis
    by (simp only: m snd_conv fst_conv) simp
qed

theorem device_not_found_exits_witness:
  "(\<forall>h. (0x0547, 0x4d33, h) \<notin> set ([(0x0547, 0x4d34, Inr ()), (0x046d, 0x4d33, Inr ())] :: unit bus))
   \<and> main (answers [0x08]) False [(0x0547, 0x4d34, Inr ()), (0x046d, 0x4d33, Inr ())] =
       (Inl (SystemExit 1), [Print ''ERROR Device not found (0x0547, 0x4d33)''])"
proof -
  let ?bus = "[(0x0547, 0x4d34, Inr ()), (0x046d, 0x4d33, Inr ())] :: unit bus"
  have a: "\<forall>h. (0x0547, 0x4d33, h) \<notin> set ?bus" by simp
  from device_not_found_exits [OF a, of "answers [0x08]" False]
  have "snd (main (answers [0x08]) False ?bus) = [Print ''ERROR Device not found (0x0547, 0x4d33)'']"
    and "fst (main (answers [0x08]) False ?bus) = Inl (SystemExit 1)"
    by auto
  with a show ?thesis by (simp add: prod_eq_iff)
qed

text \<open>
  C8. As stated the claim fails for a transfer that raises. Lines 68-77 have no
  \<^verbatim>\<open>try\<close>: when \<^verbatim>\<open>_controlTransfer\<close> raises \<^verbatim>\<open>USBError\<close> the sleep of line 77 is not
  reached, and the trace of the call ends with the transfer. A caller that catches the
  exception and calls \<^verbatim>\<open>request\<close> again gets two transfers with no sleep between them.
\<close>

theorem failed_transfer_has_no_delay:
  "request (fails (- 4)) fresh (Req CONTROL) 0x000f 0x0001 None None 0 =
     (Inl (USBError (- 4)),
      \<lparr>device = (),
       events = [Log (LogSend 0x000f 0x0001),
                 Transfer \<lparr>bmRequestType = 0x40, bRequest = 1, wValue = 0x0001, wIndex = 0x000f,
                           buf = [], wLength = 0, tmo = 0\<rparr>]\<rparr>)
   \<and> events (snd (request (fails (- 4))
         (snd (request (fails (- 4)) fresh (Req CONTROL) 0x000f 0x0001 None None 0))
         (Req REG_WRITE) 0x0022 0x0033 None None 0)) =
       [Log (LogSend 0x000f 0x0001),
        Transfer \<lparr>bmRequestType = 0x40, bRequest = 1, wValue = 0x0001, wIndex = 0x000f,
                  buf = [], wLength = 0, tmo = 0\<rparr>,
        Log (LogSend 0x0022 0x0033),
        Transfer \<lparr>bmRequestType = 0xc0, bRequest = 11, wValue = 0x0033, wIndex = 0x0022,
                  buf = [0], wLength = 1, tmo = 0\<rparr>]
   \<and> \<not> paced None
       [Log (LogSend 0x000f 0x0001),
        Transfer \<lparr>bmRequestType = 0x40, bRequest = 1, wValue = 0x0001, wIndex = 0x000f,
                  buf = [], wLength = 0, tmo = 0\<rparr>,
        Log (LogSend 0x0022 0x0033),
        Transfer \<lparr>bmRequestType = 0xc0, bRequest = 11, wValue = 0x0033, wIndex = 0x0022,
                  buf = [0], wLength = 1, tmo = 0\<rparr>]"
  by (simp add: request_def transfer_args_def encode_def bytearray_of_count_def fails_def
      emit_def fresh_def)

text \<open>
  C8, amended. Time is counted by the sleeps of the trace: the duration asked of
  \<^verbatim>\<open>time.sleep\<close> is a lower bound of the time that passes. A transfer that completes is
  followed at once, inside the same call of \<^verbatim>\<open>request\<close>, by a sleep of 2000
  microseconds, the same for every request, payload and answer, and the call makes no
  other transfer; a transfer that raises is followed by nothing, and the call raises
  \<^verbatim>\<open>USBError\<close>. So for any caller, also one that catches every exception and goes on,
  the trace is the events of its calls one after the other, each call of one of three
  shapes: no event; a log record and a transfer, when the transfer raised; a log record,
  a transfer, the sleep, and no further transfer. When no transfer raised, and in any
  sequence of calls that stops at the first exception, and in \<^verbatim>\<open>main\<close>, each transfer
  starts at least 2000 microseconds of sleep after the one before.
\<close>

theorem settle_delay_when_completed:
  "(transfer_args req idx val data size_arg timeout = Inr c
      \<and> xfer (device w) c = (Inr written, d')
    \<longrightarrow> events (snd (request xfer w req idx val data size_arg timeout)) =
          events w @ [Log (log_before idx val data), Transfer c, Sleep 2000]
            @ fst (decode idx val (overlay (buf c) written))
        \<and> transfers (fst (decode idx val (overlay (buf c) written))) = []
        \<and> \<not> raised_usb (fst (request xfer w req idx val data size_arg timeout)))
   \<and> (transfer_args req idx val data size_arg timeout = Inr c
      \<and> xfer (device w) c = (Inl err, d')
    \<longrightarrow> request xfer w req idx val data size_arg timeout =
          (Inl (USBError err),
           \<lparr>device = d', events = events w @ [Log (log_before idx val data), Transfer c]\<rparr>))
   \<and> list_all settled_call (fst (run_catching xfer w cs))
   \<and> events (snd (run_catching xfer w cs)) =
       events w @ concat (map snd (fst (run_catching xfer w cs)))
   \<and> (sleep_follows (events w) \<and> \<not> pending (events w)
        \<and> list_all (\<lambda>rn. \<not> raised_usb (fst rn)) (fst (run_catching xfer w cs))
    \<longrightarrow> sleep_follows (events (snd (run_catching xfer w cs)))
        \<and> paced None (events (snd (run_catching xfer w cs)))
        \<and> \<not> pending (events (snd (run_catching xfer w cs))))
   \<and> (sleep_follows (events w) \<and> \<not> pending (events w)
    \<longrightarrow> sleep_follows (events (snd (run xfer w cs)))
        \<and> paced None (events (snd (run xfer w cs)))
        \<and> ((\<forall>err. fst (run xfer w cs) \<noteq> Inl (USBError err))
            \<longrightarrow> \<not> pending (events (snd (run xfer w cs)))))
   \<and> sleep_follows (snd (main xfer' isatty bus))
   \<and> paced None (snd (main xfer' isatty bus))"
proof (intro conjI impI)
  assume h: "transfer_args req idx val data size_arg timeout = Inr c
      \<and> xfer (device w) c = (Inr written, d')"
  then have a: "transfer_args req idx val data size_arg timeout = Inr c"
    and x: "xfer (device w) c = (Inr written, d')" by simp_all
  note q = request_completed [where xfer = xfer and w = w, OF a x]
  show "events (snd (request xfer w req idx val data size_arg timeout)) =
          events w @ [Log (log_before idx val data), Transfer c, Sleep 2000]
            @ fst (decode idx val (overlay (buf c) written))"
    by (simp only: q snd_conv) simp
  show "transfers (fst (decode idx val (overlay (buf c) written))) = []"
    by (rule transfers_decode)
  show "\<not> raised_usb (fst (request xfer w req idx val data size_arg timeout))"
    by (simp only: q fst_conv) (simp add: decode_cases)
next
  assume h: "transfer_args req idx val data size_arg timeout = Inr c
      \<and> xfer (device w) c = (Inl err, d')"
  then have a: "transfer_args req idx val data size_arg timeout = Inr c"
    and x: "xfer (device w) c = (Inl err, d')" by simp_all
  show "request xfer w req idx val data size_arg timeout =
          (Inl (USBError err),
           \<lparr>device = d', events = events w @ [Log (log_before idx val data), Transfer c]\<rparr>)"
    by (rule request_usb_error [where xfer = xfer and w = w, OF a x])
next
  obtain rs w' where t: "run_catching xfer w cs = (rs, w')" by (cases "run_catching xfer w cs")
  from run_catching_settled [OF t]
  show "list_all settled_call (fst (run_catching xfer w cs))"
    and "events (snd (run_catching xfer w cs)) =
       events w @ concat (map snd (fst (run_catching xfer w cs)))"
    by (simp_all add: t)
next
  assume h: "sleep_follows (events w) \<and> \<not> pending (events w)
        \<and> list_all (\<lambda>rn. \<not> raised_usb (fst rn)) (fst (run_catching xfer w cs))"
  obtain rs w' where t: "run_catching xfer w cs = (rs, w')" by (cases "run_catching xfer w cs")
  from h t have "sleep_follows (events w)" "\<not> pending (events w)"
    "list_all (\<lambda>rn. \<not> raised_usb (fst rn)) rs" by simp_all
  from run_catching_keeps_delay [OF t this]
  have k: "sleep_follows (events w')" "\<not> pending (events w')" by simp_all
  from k(1) have "paced None (events w')" by (rule sleep_follows_paced)
  with k show "sleep_follows (events (snd (run_catching xfer w cs)))"
    and "paced None (events (snd (run_catching xfer w cs)))"
    and "\<not> pending (events (snd (run_catching xfer w cs)))"
    by (simp_all add: t)
next
  assume h: "sleep_follows (events w) \<and> \<not> pending (events w)"
  obtain r w' where q: "run xfer w cs = (r, w')" by (cases "run xfer w cs")
  from h have "sleep_follows (events w)" "\<not> pending (events w)" by simp_all
  from run_keeps_delay [OF this q]
  have k: "sleep_follows (events w')" "(\<forall>err. r \<noteq> Inl (USBError err)) \<longrightarrow> \<not> pending (events w')"
    by simp_all
  from k(1) have "paced None (events w')" by (rule sleep_follows_paced)
  with k(1) show "sleep_follows (events (snd (run xfer w cs)))"
    and "paced None (events (snd (run xfer w cs)))"
    by (simp_all add: q)
  assume "\<forall>err. fst (run xfer w cs) \<noteq> Inl (USBError err)"
  with k(2) show "\<not> pending (events (snd (run xfer w cs)))"
    by (simp add: q)
next
  show m: "sleep_follows (snd (main xfer' isatty bus))" by (rule main_keeps_delay)
  then show "paced None (snd (main xfer' isatty bus))" by (rule sleep_follows_paced)
qed

theorem settle_delay_when_completed_witness:
  "fst (run_catching (fails_once [0x08]) \<lparr>device = False, events = []\<rparr>
          [ctrl 0x000f 0x0001, wr 0x0022 0x0033]) =
     [(Inl (USBError (- 4)),
       [Log (LogSend 0x000f 0x0001),
        Transfer \<lparr>bmRequestType = 0x40, bRequest = 1, wValue = 0x0001, wIndex = 0x000f,
                  buf = [], wLength = 0, tmo = 0\<rparr>]),
      (Inr (Some [8]),
       [Log (LogSend 0x0022 0x0033),
        Transfer \<lparr>bmRequestType = 0xc0, bRequest = 11, wValue = 0x0033, wIndex = 0x0022,
                  buf = [0], wLength = 1, tmo = 0\<rparr>,
        Sleep 2000,
        Log (LogRead 0x0022 0x0033 [8])])]
   \<and> list_all settled_call
        (fst (run_catching (fails_once [0x08]) \<lparr>device = False, events = []\<rparr>
               [ctrl 0x000f 0x0001, wr 0x0022 0x0033]))
   \<and> sleep_follows (events fresh) \<and> \<not> pending (events fresh)
   \<and> events (snd (run (answers [0x08]) fresh [wr 0x0022 0x0033, ctrl 0x000f 0x0003])) =
       [Log (LogSend 0x0022 0x0033),
        Transfer \<lparr>bmRequestType = 0xc0, bRequest = 11, wValue = 0x0033, wIndex = 0x0022,
                  buf = [0], wLength = 1, tmo = 0\<rparr>,
        Sleep 2000,
        Log (LogRead 0x0022 0x0033 [8]),
        Log (LogSend 0x000f 0x0003),
        Transfer \<lparr>bmRequestType = 0x40, bRequest = 1, wValue = 0x0003, wIndex = 0x000f,
                  buf = [], wLength = 0, tmo = 0\<rparr>,
        Sleep 2000]
   \<and> paced None (events (snd (run (answers [0x08]) fresh [wr 0x0022 0x0033, ctrl 0x000f 0x0003])))"
proof -
  have c: "fst (run_catching (fails_once [0x08]) \<lparr>device = False, events = []\<rparr>
          [ctrl 0x000f 0x0001, wr 0x0022 0x0033]) =
     [(Inl (USBError (- 4)),
       [Log (LogSend 0x000f 0x0001),
        Transfer \<lparr>bmRequestType = 0x40, bRequest = 1, wValue = 0x0001, wIndex = 0x000f,
                  buf = [], wLength = 0, tmo = 0\<rparr>]),
      (Inr (Some [8]),
       [Log (LogSend 0x0022 0x0033),
        Transfer \<lparr>bmRequestType = 0xc0, bRequest = 11, wValue = 0x0033, wIndex = 0x0022,
                  buf = [0], wLength = 1, tmo = 0\<rparr>,
        Sleep 2000,
        Log (LogRead 0x0022 0x0033 [8])])]"
    by (simp add: wr_def ctrl_def request_def transfer_args_def encode_def
        bytearray_of_count_def fails_once_def emit_def decode_def overlay_def Let_def)
  have l: "list_all settled_call
        (fst (run_catching (fails_once [0x08]) \<lparr>device = False, events = []\<rparr>
               [ctrl 0x000f 0x0001, wr 0x0022 0x0033]))"
    by (rule settle_delay_when_completed [THEN conjunct2, THEN conjunct2, THEN conjunct1])
  have s: "sleep_follows (events fresh)" and p: "\<not> pending (events fresh)"
    by (simp_all add: fresh_def)
  have e: "events (snd (run (answers [0x08]) fresh [wr 0x0022 0x0033, ctrl 0x000f 0x0003])) =
       [Log (LogSend 0x0022 0x0033),
        Transfer \<lparr>bmRequestType = 0xc0, bRequest = 11, wValue = 0x0033, wIndex = 0x0022,
                  buf = [0], wLength = 1, tmo = 0\<rparr>,
        Sleep 2000,
        Log (LogRead 0x0022 0x0033 [8]),
        Log (LogSend 0x000f 0x0003),
        Transfer \<lparr>bmRequestType = 0x40, bRequest = 1, wValue = 0x0003, wIndex = 0x000f,
                  buf = [], wLength = 0, tmo = 0\<rparr>,
        Sleep 2000]"
    by (simp add: wr_def ctrl_def fresh_def request_def transfer_args_def encode_def
        bytearray_of_count_def answers_def emit_def decode_def overlay_def Let_def)
  from s p have sp: "sleep_follows (events fresh) \<and> \<not> pending (events fresh)" by simp
  have "paced None (events (snd (run (answers [0x08]) fresh [wr 0x0022 0x0033, ctrl 0x000f 0x0003])))"
    by (rule settle_delay_when_completed [where xfer = "answers [0x08]" and w = fresh
          and cs = "[wr 0x0022 0x0033, ctrl 0x000f 0x0003]",
          THEN conjunct2, THEN conjunct2, THEN conjunct2, THEN conjunct2, THEN conjunct2,
          THEN conjunct1, THEN mp, OF sp, THEN conjunct2, THEN conjunct1])
  with c l s p e show ?thesis by (simp only: simp_thms)
qed

end
